theory Spec2Isabelle
  imports Main "HOL-Library.Sublist"
begin

section \<open>Third-party license check: a shallow embedding\<close>

text \<open>
  The development embeds \<^verbatim>\<open>third_party_license_test.py\<close>. Python strings are
  modelled as \<^typ>\<open>string\<close>; a character stands for a code point below 256. The remote
  host is a function from the requested URL to a status code and a body, and every call
  of \<^verbatim>\<open>requests.get\<close> is recorded in a log of requested URLs that is passed through the
  functions. Failures (\<^verbatim>\<open>sys.exit(1)\<close> and uncaught exceptions) are values of the
  type \<open>error\<close>.
\<close>

subsection \<open>Python string operations\<close>

text \<open>\<^verbatim>\<open>sub in s\<close>: \<open>sub\<close> occurs in \<open>s\<close> as a contiguous substring.\<close>

fun contains :: "string \<Rightarrow> string \<Rightarrow> bool" where
  "contains sub [] = (sub = [])"
| "contains sub (c # cs) = (prefix sub (c # cs) \<or> contains sub cs)"

text \<open>\<^verbatim>\<open>s.endswith(suf)\<close>.\<close>

definition endswith :: "string \<Rightarrow> string \<Rightarrow> bool" where
  "endswith s suf = suffix suf s"

text \<open>
  The first occurrence of a non-empty separator: the text before it and the text after
  it (\<^verbatim>\<open>str.partition\<close> without the separator), or \<open>None\<close> when it does not occur.
\<close>

fun split_first :: "string \<Rightarrow> string \<Rightarrow> (string \<times> string) option" where
  "split_first sep [] = None"
| "split_first sep (c # cs) =
     (if prefix sep (c # cs) then Some ([], drop (length sep) (c # cs))
      else (case split_first sep cs of
              None \<Rightarrow> None
            | Some (a, b) \<Rightarrow> Some (c # a, b)))"

lemma split_first_length:
  "split_first sep s = Some (a, b) \<Longrightarrow> sep \<noteq> [] \<Longrightarrow> length b < length s"
proof (induction s arbitrary: a b)
  case Nil
  then show ?case by simp
next
  case (Cons c cs)
  show ?case
  proof (cases "prefix sep (c # cs)")
    case True
    with Cons.prems show ?thesis by auto
  next
    case False
    with Cons.prems obtain a' where "split_first sep cs = Some (a', b)"
      by (auto split: option.splits)
    with Cons.IH Cons.prems(2) show ?thesis by fastforce
  qed
qed

text \<open>
  \<^verbatim>\<open>s.split(sep)\<close> for a non-empty separator: the pieces between the non-overlapping
  occurrences of \<open>sep\<close>, scanned from the left. Python raises \<^verbatim>\<open>ValueError\<close> for an
  empty separator; the program only splits at the literals \<^verbatim>\<open>'master/'\<close>,
  \<^verbatim>\<open>'main/'\<close> and \<^verbatim>\<open>':'\<close>, and the model returns the string unsplit there.
\<close>

function py_split :: "string \<Rightarrow> string \<Rightarrow> string list" where
  "py_split sep s =
     (if sep = [] then [s]
      else (case split_first sep s of
              None \<Rightarrow> [s]
            | Some (a, b) \<Rightarrow> a # py_split sep b))"
  by pat_completeness auto
termination
  by (relation "measure (\<lambda>(sep, s). length s)") (auto dest: split_first_length)

declare py_split.simps [simp del]

text \<open>
  \<^verbatim>\<open>s.replace(old, new)\<close> for a non-empty \<open>old\<close>: every non-overlapping occurrence,
  scanned from the left, is replaced.
\<close>

function py_replace :: "string \<Rightarrow> string \<Rightarrow> string \<Rightarrow> string" where
  "py_replace old new [] = []"
| "py_replace old new (c # cs) =
     (if old \<noteq> [] \<and> prefix old (c # cs)
      then new @ py_replace old new (drop (length old) (c # cs))
      else c # py_replace old new cs)"
  by pat_completeness auto
termination
  by (relation "measure (\<lambda>(old, new, s). length s)") auto

declare py_replace.simps(2) [simp del]

subsection \<open>Constants\<close>

definition GITHUB_PREFIX :: string where
  "GITHUB_PREFIX = ''https://github.com/''"

definition RAW_FILE_PREFIX :: string where
  "RAW_FILE_PREFIX = ''https://raw.githubusercontent.com/''"

definition POM_FILE_SUFFIX :: string where
  "POM_FILE_SUFFIX = ''.xml''"

definition GRADLE_FILE_SUFFIX :: string where
  "GRADLE_FILE_SUFFIX = ''.gradle''"

definition branch_roots :: "string list" where
  "branch_roots = [''master/'', ''main/'']"

definition LF :: char where
  "LF = CHR 0x0A"

definition CR :: char where
  "CR = CHR 0x0D"

text \<open>
  \<^verbatim>\<open>SPACER\<close>: two line feeds, three lines of 79 equals signs, and an empty line.
\<close>

definition SPACER :: string where
  "SPACER = [LF, LF] @ replicate 79 (CHR ''='') @ [LF] @ replicate 79 (CHR ''='') @ [LF]
            @ replicate 79 (CHR ''='') @ [LF, LF]"

subsection \<open>Failures\<close>

text \<open>
  Every way the script stops with a non-zero exit status: a \<^verbatim>\<open>sys.exit(1)\<close> after
  a diagnostic, or an exception that nothing catches.
\<close>

datatype error =
    RemoteUnavailable string
      \<comment> \<open>line 56: the pom file could not be read; the URL is printed\<close>
  | XmlParseError
      \<comment> \<open>line 59: \<^verbatim>\<open>ET.fromstring\<close> raises on text that is not XML\<close>
  | MalformedDescriptor
      \<comment> \<open>lines 63, 64: \<^verbatim>\<open>find\<close> returned \<^verbatim>\<open>None\<close> and the attribute access raises\<close>
  | GradleContentAbsent
      \<comment> \<open>line 79: \<^verbatim>\<open>None.splitlines()\<close> raises when the gradle file could not be read\<close>
  | IndexError
      \<comment> \<open>an index out of range, lines 39, 70, 189\<close>
  | KeyError
      \<comment> \<open>a missing dictionary key, lines 203, 215, 218\<close>
  | LengthMismatch
      \<comment> \<open>line 161: the two lists differ in length\<close>
  | UnknownSuffix
      \<comment> \<open>line 182: neither a pom nor a gradle file\<close>
  | CoordinateMismatch "string list" "string list"
      \<comment> \<open>line 193: the two artifact lists differ; both are printed\<close>
  | NoBranchMarker string
      \<comment> \<open>line 98: no branch root in the URL\<close>
  | LicenseUnresolvable string
      \<comment> \<open>line 122: no license file found\<close>
  | NoticesFileMissing
      \<comment> \<open>line 229: \<^verbatim>\<open>open\<close> raises for a file that does not exist\<close>
  | NoticesDrift
      \<comment> \<open>line 233: the notices file differs from the generated text\<close>

text \<open>The exit status of a failed run; a successful run exits with 0.\<close>

definition exit_status :: "error + 'a \<Rightarrow> nat" where
  "exit_status r = (case r of Inl e \<Rightarrow> 1 | Inr v \<Rightarrow> 0)"

subsection \<open>Fetching a file\<close>

type_synonym remote = "string \<Rightarrow> nat \<times> string"
type_synonym log = "string list"

text \<open>
  The loop of lines 36 to 40: the first branch root that occurs in the URL decides; the
  five characters before its first occurrence are cut, and of the text after it only the
  piece up to the next occurrence is kept (\<^verbatim>\<open>split_url[1]\<close>).
\<close>

fun raw_url_loop :: "string list \<Rightarrow> string \<Rightarrow> error + string" where
  "raw_url_loop [] u = Inr []"
| "raw_url_loop (br # brs) u =
     (if contains br u then
        (case py_split br u of
           a # b # rest \<Rightarrow> Inr (take (length a - 5) a @ br @ b)
         | _ \<Rightarrow> Inl IndexError)
      else raw_url_loop brs u)"

definition get_file_from_github ::
  "remote \<Rightarrow> string \<Rightarrow> log \<Rightarrow> (error + string option) \<times> log" where
  "get_file_from_github srv github_url lg =
     (let raw_file_url_with_blob = py_replace GITHUB_PREFIX RAW_FILE_PREFIX github_url in
      case raw_url_loop branch_roots raw_file_url_with_blob of
        Inl e \<Rightarrow> (Inl e, lg)
      | Inr raw_file_url \<Rightarrow>
          if raw_file_url = [] then (Inr None, lg)
          else
            (let response = srv raw_file_url in
             if fst response \<noteq> 200 then (Inr None, lg @ [raw_file_url])
             else (Inr (Some (snd response)), lg @ [raw_file_url])))"

subsection \<open>The coordinate of a pom file\<close>

text \<open>
  An element of a parsed XML document as \<^verbatim>\<open>xml.etree.ElementTree\<close> presents it: the
  tag (with its namespace in braces), the text (\<^verbatim>\<open>None\<close> for an element without
  text) and the child elements in document order. The parser \<^verbatim>\<open>ET.fromstring\<close> is a
  parameter of the model; it gives \<open>None\<close> where the library raises.
\<close>

datatype element = Element (tag: string) (elem_text: "string option") (children: "element list")

definition mvn :: "string \<Rightarrow> string" where
  "mvn name = ''{http://maven.apache.org/POM/4.0.0}'' @ name"

text \<open>\<^verbatim>\<open>e.find('mvn:name', ns)\<close>: the first child of \<open>e\<close> with that tag.\<close>

definition find_child :: "element \<Rightarrow> string \<Rightarrow> element option" where
  "find_child e name = find (\<lambda>c. tag c = mvn name) (children e)"

text \<open>\<^verbatim>\<open>'%s' % x\<close> for a value that is a string or \<^verbatim>\<open>None\<close>.\<close>

definition fmt_s :: "string option \<Rightarrow> string" where
  "fmt_s x = (case x of None \<Rightarrow> ''None'' | Some s \<Rightarrow> s)"

text \<open>Lines 62 to 66, on the parsed document.\<close>

definition pom_coordinate :: "element \<Rightarrow> error + string" where
  "pom_coordinate root =
     (case find_child root ''parent'' of
        None \<Rightarrow> Inl MalformedDescriptor
      | Some parent \<Rightarrow>
          (case find_child parent ''groupId'' of
             None \<Rightarrow> Inl MalformedDescriptor
           | Some g \<Rightarrow>
               (case find_child root ''artifactId'' of
                  None \<Rightarrow> Inl MalformedDescriptor
                | Some a \<Rightarrow> Inr (fmt_s (elem_text g) @ '':'' @ fmt_s (elem_text a)))))"

definition get_pom_artifact_name ::
  "remote \<Rightarrow> (string \<Rightarrow> element option) \<Rightarrow> string \<Rightarrow> log \<Rightarrow> (error + string) \<times> log" where
  "get_pom_artifact_name srv fromstring pom_xml_github_url lg =
     (case get_file_from_github srv pom_xml_github_url lg of
        (Inl e, lg') \<Rightarrow> (Inl e, lg')
      | (Inr None, lg') \<Rightarrow> (Inl (RemoteUnavailable pom_xml_github_url), lg')
      | (Inr (Some pom_xml_content), lg') \<Rightarrow>
          (case fromstring pom_xml_content of
             None \<Rightarrow> (Inl XmlParseError, lg')
           | Some root \<Rightarrow> (pom_coordinate root, lg')))"

subsection \<open>The coordinate of a gradle file\<close>

text \<open>
  The characters below 256 that \<^verbatim>\<open>str.split()\<close> treats as white space, and those at
  which \<^verbatim>\<open>str.splitlines()\<close> breaks a line.
\<close>

definition is_space :: "char \<Rightarrow> bool" where
  "is_space c = (of_char c \<in> {9, 10, 11, 12, 13, 28, 29, 30, 31, 32, 133, 160 :: nat})"

definition is_linebreak :: "char \<Rightarrow> bool" where
  "is_linebreak c = (of_char c \<in> {10, 11, 12, 13, 28, 29, 30, 133 :: nat})"

text \<open>\<^verbatim>\<open>s.split()\<close>: the maximal runs of characters that are not white space.\<close>

fun split_ws_from :: "string \<Rightarrow> string \<Rightarrow> string list" where
  "split_ws_from cur [] = (if cur = [] then [] else [cur])"
| "split_ws_from cur (c # cs) =
     (if is_space c then (if cur = [] then split_ws_from [] cs else cur # split_ws_from [] cs)
      else split_ws_from (cur @ [c]) cs)"

definition split_ws :: "string \<Rightarrow> string list" where
  "split_ws s = split_ws_from [] s"

text \<open>
  \<^verbatim>\<open>s.splitlines()\<close>: a carriage return followed by a line feed is one line break, and
  a line break at the very end does not open a further line.
\<close>

fun splitlines_from :: "string \<Rightarrow> string \<Rightarrow> string list" where
  "splitlines_from cur [] = (if cur = [] then [] else [cur])"
| "splitlines_from cur [c] = (if is_linebreak c then [cur] else [cur @ [c]])"
| "splitlines_from cur (c # d # cs) =
     (if c = CHR 0x0D \<and> d = CHR 0x0A then cur # splitlines_from [] cs
      else if is_linebreak c then cur # splitlines_from [] (d # cs)
      else splitlines_from (cur @ [c]) (d # cs))"

definition splitlines :: "string \<Rightarrow> string list" where
  "splitlines s = splitlines_from [] s"

text \<open>\<^verbatim>\<open>s.strip("'")\<close>: the single quotes at both ends are removed.\<close>

definition strip_quote :: "string \<Rightarrow> string" where
  "strip_quote s =
     rev (dropWhile (\<lambda>c. c = CHR 0x27) (rev (dropWhile (\<lambda>c. c = CHR 0x27) s)))"

definition get_grad_rval :: "string \<Rightarrow> error + string" where
  "get_grad_rval line =
     (case split_ws line of
        [] \<Rightarrow> Inl IndexError
      | w # ws \<Rightarrow> Inr (strip_quote (last (w # ws))))"

text \<open>The loop of lines 79 to 83 with its two variables.\<close>

fun gradle_loop :: "string list \<Rightarrow> string \<Rightarrow> string \<Rightarrow> error + string \<times> string" where
  "gradle_loop [] group_id artifact_id = Inr (group_id, artifact_id)"
| "gradle_loop (line # lines) group_id artifact_id =
     (case (if contains ''groupId'' line then get_grad_rval line else Inr group_id) of
        Inl e \<Rightarrow> Inl e
      | Inr group_id' \<Rightarrow>
          (case (if contains ''artifactId'' line then get_grad_rval line
                 else Inr artifact_id) of
             Inl e \<Rightarrow> Inl e
           | Inr artifact_id' \<Rightarrow> gradle_loop lines group_id' artifact_id'))"

text \<open>Lines 76 to 85, on the content of the file.\<close>

definition gradle_coordinate :: "string \<Rightarrow> error + string" where
  "gradle_coordinate content =
     (case gradle_loop (splitlines content) [] [] of
        Inl e \<Rightarrow> Inl e
      | Inr (group_id, artifact_id) \<Rightarrow> Inr (group_id @ '':'' @ artifact_id))"

definition get_gradle_artifact_name ::
  "remote \<Rightarrow> string \<Rightarrow> log \<Rightarrow> (error + string) \<times> log" where
  "get_gradle_artifact_name srv url lg =
     (case get_file_from_github srv url lg of
        (Inl e, lg') \<Rightarrow> (Inl e, lg')
      | (Inr None, lg') \<Rightarrow> (Inl GradleContentAbsent, lg')
      | (Inr (Some content), lg') \<Rightarrow> (gradle_coordinate content, lg'))"

subsection \<open>Locating the license\<close>

text \<open>
  The loop of lines 92 to 95 has no \<^verbatim>\<open>break\<close>: a later branch root that occurs in
  the URL overwrites the root found for an earlier one.
\<close>

fun github_root_loop :: "string list \<Rightarrow> string \<Rightarrow> string \<Rightarrow> error + string" where
  "github_root_loop [] url github_root = Inr github_root"
| "github_root_loop (br # brs) url github_root =
     (if contains br url then
        (case py_split br url of
           [] \<Rightarrow> Inl IndexError
         | a # rest \<Rightarrow> github_root_loop brs url (a @ br))
      else github_root_loop brs url github_root)"

definition get_github_root_url :: "string \<Rightarrow> error + string" where
  "get_github_root_url url =
     (case github_root_loop branch_roots url [] of
        Inl e \<Rightarrow> Inl e
      | Inr github_root \<Rightarrow>
          if github_root = [] then Inl (NoBranchMarker url) else Inr github_root)"

definition license_filenames :: "string list" where
  "license_filenames = [''LICENSE'', ''COPYING'']"

text \<open>
  The loop of lines 115 to 119; the state is the pair of \<^verbatim>\<open>license_url\<close> and
  \<^verbatim>\<open>license_content\<close>.
\<close>

fun license_loop ::
  "remote \<Rightarrow> string \<Rightarrow> string list \<Rightarrow> string \<times> string option \<Rightarrow> log
     \<Rightarrow> (error + string \<times> string option) \<times> log" where
  "license_loop srv github_branch_root [] st lg = (Inr st, lg)"
| "license_loop srv github_branch_root (filename # filenames) st lg =
     (case get_file_from_github srv (github_branch_root @ filename) lg of
        (Inl e, lg') \<Rightarrow> (Inl e, lg')
      | (Inr (Some license_content), lg') \<Rightarrow>
          (Inr (github_branch_root @ filename, Some license_content), lg')
      | (Inr None, lg') \<Rightarrow>
          license_loop srv github_branch_root filenames (github_branch_root @ filename, None) lg')"

definition get_license_from_pom ::
  "remote \<Rightarrow> string \<Rightarrow> log \<Rightarrow> (error + string \<times> string) \<times> log" where
  "get_license_from_pom srv url lg =
     (case get_github_root_url url of
        Inl e \<Rightarrow> (Inl e, lg)
      | Inr github_branch_root \<Rightarrow>
          (case license_loop srv github_branch_root license_filenames ([], None) lg of
             (Inl e, lg') \<Rightarrow> (Inl e, lg')
           | (Inr (license_url, None), lg') \<Rightarrow> (Inl (LicenseUnresolvable url), lg')
           | (Inr (license_url, Some license_content), lg') \<Rightarrow>
               (Inr (license_url, license_content), lg')))"

subsection \<open>The textual form of a list of strings\<close>

text \<open>
  \<^verbatim>\<open>str\<close> of a list gives the \<^verbatim>\<open>repr\<close> of its elements between brackets. The
  \<^verbatim>\<open>repr\<close> of a string is quoted with single quotes, or with double quotes when
  the string has a single quote and no double quote; the quote and the backslash are
  escaped, tab, line feed and carriage return are written \<^verbatim>\<open>\t\<close>, \<^verbatim>\<open>\n\<close>,
  \<^verbatim>\<open>\r\<close>, and any other character that is not printable is written \<^verbatim>\<open>\xNN\<close>.
\<close>

definition is_printable :: "char \<Rightarrow> bool" where
  "is_printable c =
     (let n = (of_char c :: nat) in (32 \<le> n \<and> n < 127) \<or> (161 \<le> n \<and> n \<noteq> 173))"

definition hex_digit :: "nat \<Rightarrow> char" where
  "hex_digit n = ''0123456789abcdef'' ! (n mod 16)"

definition repr_char :: "char \<Rightarrow> char \<Rightarrow> string" where
  "repr_char quote c =
     (if c = quote \<or> c = CHR 0x5C then [CHR 0x5C, c]
      else if c = CHR 0x09 then [CHR 0x5C, CHR ''t'']
      else if c = CHR 0x0A then [CHR 0x5C, CHR ''n'']
      else if c = CHR 0x0D then [CHR 0x5C, CHR ''r'']
      else if \<not> is_printable c then
        [CHR 0x5C, CHR ''x'', hex_digit (of_char c div 16), hex_digit (of_char c)]
      else [c])"

definition py_repr :: "string \<Rightarrow> string" where
  "py_repr s =
     (let quote = (if CHR 0x27 \<in> set s \<and> CHR 0x22 \<notin> set s then CHR 0x22 else CHR 0x27)
      in [quote] @ concat (map (repr_char quote) s) @ [quote])"

fun join :: "string \<Rightarrow> string list \<Rightarrow> string" where
  "join sep [] = []"
| "join sep [x] = x"
| "join sep (x # y # ys) = x @ sep @ join sep (y # ys)"

definition py_str_list :: "string list \<Rightarrow> string" where
  "py_str_list xs = ''['' @ join '', '' (map py_repr xs) @ '']''"

subsection \<open>The main program\<close>

text \<open>
  The two lists \<^verbatim>\<open>MAVEN_ARTIFACTS\<close> and \<^verbatim>\<open>ORDERED_POM_OR_GRADLE_FILE_LIST\<close> are
  the input of the model; reading the command line and executing the \<^verbatim>\<open>bzl\<close>
  file (lines 129 to 157) are not modelled. A dictionary whose order is not used is a
  map; a dictionary that is iterated is its list of keys in insertion order together
  with a map.
\<close>

text \<open>The loop of lines 172 to 183.\<close>

fun derive_loop ::
  "remote \<Rightarrow> (string \<Rightarrow> element option) \<Rightarrow> string list
     \<Rightarrow> string list \<times> (string \<rightharpoonup> string) \<Rightarrow> log
     \<Rightarrow> (error + string list \<times> (string \<rightharpoonup> string)) \<times> log" where
  "derive_loop srv fromstring [] st lg = (Inr st, lg)"
| "derive_loop srv fromstring (url # urls) (artifact_list_from_github, package_name_to_pom) lg =
     (if endswith url POM_FILE_SUFFIX then
        (case get_pom_artifact_name srv fromstring url lg of
           (Inl e, lg') \<Rightarrow> (Inl e, lg')
         | (Inr tmp, lg') \<Rightarrow>
             derive_loop srv fromstring urls
               (artifact_list_from_github @ [tmp], package_name_to_pom(tmp \<mapsto> url)) lg')
      else if endswith url GRADLE_FILE_SUFFIX then
        (case get_gradle_artifact_name srv url lg of
           (Inl e, lg') \<Rightarrow> (Inl e, lg')
         | (Inr tmp, lg') \<Rightarrow>
             derive_loop srv fromstring urls
               (artifact_list_from_github @ [tmp], package_name_to_pom(tmp \<mapsto> url)) lg')
      else (Inl UnknownSuffix, lg))"

text \<open>The loop of lines 186 to 190.\<close>

fun truncate_loop :: "string list \<Rightarrow> string list \<Rightarrow> error + string list" where
  "truncate_loop [] artifact_list_from_maven = Inr artifact_list_from_maven"
| "truncate_loop (artifact_name # names) artifact_list_from_maven =
     (case py_split '':'' artifact_name of
        a # b # rest \<Rightarrow> truncate_loop names (artifact_list_from_maven @ [a @ '':'' @ b])
      | _ \<Rightarrow> Inl IndexError)"

text \<open>Lines 159 to 196: the check of the two lists against each other.\<close>

definition reconcile ::
  "remote \<Rightarrow> (string \<Rightarrow> element option) \<Rightarrow> string list \<Rightarrow> string list \<Rightarrow> log
     \<Rightarrow> (error + string list \<times> (string \<rightharpoonup> string)) \<times> log" where
  "reconcile srv fromstring maven_artifacts pom_gradle_filelist lg =
     (if length maven_artifacts \<noteq> length pom_gradle_filelist then (Inl LengthMismatch, lg)
      else
        (case derive_loop srv fromstring pom_gradle_filelist ([], Map.empty) lg of
           (Inl e, lg') \<Rightarrow> (Inl e, lg')
         | (Inr (artifact_list_from_github, package_name_to_pom), lg') \<Rightarrow>
             (case truncate_loop maven_artifacts [] of
                Inl e \<Rightarrow> (Inl e, lg')
              | Inr artifact_list_from_maven \<Rightarrow>
                  if artifact_list_from_github \<noteq> artifact_list_from_maven
                  then (Inl (CoordinateMismatch artifact_list_from_github
                               artifact_list_from_maven), lg')
                  else (Inr (artifact_list_from_github, package_name_to_pom), lg'))))"

text \<open>
  The loop of lines 201 to 209. The state: the keys of \<^verbatim>\<open>license_url_to_package\<close>
  in insertion order, that dictionary, and \<^verbatim>\<open>license_url_to_content\<close>.
\<close>

type_synonym licenses = "string list \<times> (string \<rightharpoonup> string list) \<times> (string \<rightharpoonup> string)"

fun group_loop ::
  "remote \<Rightarrow> (string \<rightharpoonup> string) \<Rightarrow> string list \<Rightarrow> licenses \<Rightarrow> log
     \<Rightarrow> (error + licenses) \<times> log" where
  "group_loop srv package_name_to_pom [] st lg = (Inr st, lg)"
| "group_loop srv package_name_to_pom (package # packages)
     (keys, license_url_to_package, license_url_to_content) lg =
     (case package_name_to_pom package of
        None \<Rightarrow> (Inl KeyError, lg)
      | Some pom \<Rightarrow>
          (case get_license_from_pom srv pom lg of
             (Inl e, lg') \<Rightarrow> (Inl e, lg')
           | (Inr (license_url, license_content), lg') \<Rightarrow>
               (case license_url_to_package license_url of
                  Some pkgs \<Rightarrow>
                    group_loop srv package_name_to_pom packages
                      (keys, license_url_to_package(license_url \<mapsto> pkgs @ [package]),
                       license_url_to_content) lg'
                | None \<Rightarrow>
                    group_loop srv package_name_to_pom packages
                      (keys @ [license_url], license_url_to_package(license_url \<mapsto> [package]),
                       license_url_to_content(license_url \<mapsto> license_content)) lg')))"

text \<open>The loop of lines 213 to 219 over the keys in insertion order.\<close>

fun notices_loop ::
  "string list \<Rightarrow> (string \<rightharpoonup> string list) \<Rightarrow> (string \<rightharpoonup> string) \<Rightarrow> string
     \<Rightarrow> error + string" where
  "notices_loop [] license_url_to_package license_url_to_content
     third_party_notices_content = Inr third_party_notices_content"
| "notices_loop (license_url # urls) license_url_to_package license_url_to_content
     third_party_notices_content =
     (case license_url_to_package license_url of
        None \<Rightarrow> Inl KeyError
      | Some pkgs \<Rightarrow>
          (case license_url_to_content license_url of
             None \<Rightarrow> Inl KeyError
           | Some content \<Rightarrow>
               notices_loop urls license_url_to_package license_url_to_content
                 (third_party_notices_content @ ''License for package(s): ''
                    @ py_str_list pkgs @ [LF, LF] @ content @ SPACER)))"

text \<open>Lines 198 to 219: the notices document of the packages.\<close>

definition aggregate ::
  "remote \<Rightarrow> (string \<rightharpoonup> string) \<Rightarrow> string list \<Rightarrow> log \<Rightarrow> (error + string) \<times> log" where
  "aggregate srv package_name_to_pom artifact_list_from_github lg =
     (case group_loop srv package_name_to_pom artifact_list_from_github
             ([], Map.empty, Map.empty) lg of
        (Inl e, lg') \<Rightarrow> (Inl e, lg')
      | (Inr (keys, license_url_to_package, license_url_to_content), lg') \<Rightarrow>
          (notices_loop keys license_url_to_package license_url_to_content [], lg'))"

text \<open>
  The file system: the text stored in each file, the writes made so far (the path and
  the text stored by each), and the line separator of the platform (\<^verbatim>\<open>os.linesep\<close>).
  Opening a file for writing and writing to it do not fail in the model.
\<close>

record files =
  store :: "string \<rightharpoonup> string"
  written :: "(string \<times> string) list"
  linesep :: string

text \<open>
  Both \<^verbatim>\<open>open\<close> calls of lines 223 and 229 are in text mode with the default
  \<^verbatim>\<open>newline=None\<close>. Reading then turns every carriage return followed by a line feed,
  and every other carriage return, into a line feed; writing turns every line feed into
  the line separator of the platform.
\<close>

fun universal_newlines :: "string \<Rightarrow> string" where
  "universal_newlines [] = []"
| "universal_newlines [c] = (if c = CR then [LF] else [c])"
| "universal_newlines (c # d # cs) =
     (if c = CR \<and> d = LF then LF # universal_newlines cs
      else if c = CR then LF # universal_newlines (d # cs)
      else c # universal_newlines (d # cs))"

definition text_write :: "string \<Rightarrow> string \<Rightarrow> string" where
  "text_write sep s = concat (map (\<lambda>c. if c = LF then sep else [c]) s)"

text \<open>Lines 222 to 239.\<close>

definition sync :: "bool \<Rightarrow> string \<Rightarrow> string \<Rightarrow> files \<Rightarrow> (error + unit) \<times> files" where
  "sync update third_party_notices_file third_party_notices_content fs =
     (if update then
        (Inr (),
         fs\<lparr>store := (store fs)(third_party_notices_file \<mapsto>
                     text_write (linesep fs) third_party_notices_content),
            written := written fs @
                     [(third_party_notices_file,
                       text_write (linesep fs) third_party_notices_content)]\<rparr>)
      else
        (case store fs third_party_notices_file of
           None \<Rightarrow> (Inl NoticesFileMissing, fs)
         | Some stored \<Rightarrow>
             (let old_third_party_notices_content = universal_newlines stored in
              if old_third_party_notices_content = third_party_notices_content
              then (Inr (), fs)
              else (Inl NoticesDrift, fs))))"

definition main ::
  "remote \<Rightarrow> (string \<Rightarrow> element option) \<Rightarrow> string list \<Rightarrow> string list \<Rightarrow> string \<Rightarrow> bool
     \<Rightarrow> log \<Rightarrow> files \<Rightarrow> (error + unit) \<times> log \<times> files" where
  "main srv fromstring maven_artifacts pom_gradle_filelist third_party_notices_file update
     lg fs =
     (case reconcile srv fromstring maven_artifacts pom_gradle_filelist lg of
        (Inl e, lg') \<Rightarrow> (Inl e, lg', fs)
      | (Inr (artifact_list_from_github, package_name_to_pom), lg') \<Rightarrow>
          (case aggregate srv package_name_to_pom artifact_list_from_github lg' of
             (Inl e, lg'') \<Rightarrow> (Inl e, lg'', fs)
           | (Inr third_party_notices_content, lg'') \<Rightarrow>
               (case sync update third_party_notices_file third_party_notices_content fs of
                  (r, fs') \<Rightarrow> (r, lg'', fs'))))"

section \<open>Auxiliary definitions\<close>

subsection \<open>Parts of the program used in the statements\<close>

text \<open>The body of the loop of lines 172 to 183 for one descriptor: its coordinate.\<close>

definition derive_one ::
  "remote \<Rightarrow> (string \<Rightarrow> element option) \<Rightarrow> string \<Rightarrow> log \<Rightarrow> (error + string) \<times> log" where
  "derive_one srv fromstring url lg =
     (if endswith url POM_FILE_SUFFIX then get_pom_artifact_name srv fromstring url lg
      else if endswith url GRADLE_FILE_SUFFIX then get_gradle_artifact_name srv url lg
      else (Inl UnknownSuffix, lg))"

text \<open>The coordinate derived from a descriptor, without the log.\<close>

definition coordinate_of ::
  "remote \<Rightarrow> (string \<Rightarrow> element option) \<Rightarrow> string \<Rightarrow> error + string" where
  "coordinate_of srv fromstring url = fst (derive_one srv fromstring url [])"

text \<open>
  Lines 187 to 189 for one declared entry with at least two segments: the first two
  segments, joined by a colon.
\<close>

definition well_formed :: "string \<Rightarrow> bool" where
  "well_formed artifact_name \<longleftrightarrow> 2 \<le> length (py_split '':'' artifact_name)"

definition truncated :: "string \<Rightarrow> string" where
  "truncated artifact_name =
     (let split_artifact_name = py_split '':'' artifact_name
      in split_artifact_name ! 0 @ '':'' @ split_artifact_name ! 1)"

text \<open>
  The dictionary \<^verbatim>\<open>package_name_to_pom\<close> after the assignments of lines 176 and 180 for
  a list of pairs of a coordinate and its descriptor: a later pair overwrites an earlier
  one with the same coordinate.
\<close>

definition index_of ::
  "(string \<times> string) list \<Rightarrow> (string \<rightharpoonup> string) \<Rightarrow> (string \<rightharpoonup> string)" where
  "index_of ps idx = fold (\<lambda>(c, u) m. m(c \<mapsto> u)) ps idx"





subsection \<open>Definitions that follow the specification\<close>

text \<open>
  The value the specification gives to a field of a gradle coordinate: the last
  white-space-delimited token, without its single quotes, of the last line that contains
  the token; the empty string when no line contains it.
\<close>

definition spec_last_value :: "string \<Rightarrow> string list \<Rightarrow> string" where
  "spec_last_value token lines =
     (case filter (contains token) lines of
        [] \<Rightarrow> []
      | l # ls \<Rightarrow> strip_quote (last (split_ws (last (l # ls)))))"





subsection \<open>An example run\<close>

text \<open>
  A remote host with a pom file and two gradle files in one repository, which has a
  \<^verbatim>\<open>LICENSE\<close> file, and a gradle file in a second repository, which has a
  \<^verbatim>\<open>COPYING\<close> file only; and a parser that knows the pom file. The pom file and the
  gradle file at the root of the first repository give the same coordinate.
\<close>

definition example_remote :: remote where
  "example_remote u =
     (if u = ''https://raw.githubusercontent.com/org/repo/main/pom.xml''
        then (200, ''<project/>'')
      else if u = ''https://raw.githubusercontent.com/org/lib/master/build.gradle''
        then (200, ''groupId g2'' @ [LF] @ ''artifactId a2'')
      else if u = ''https://raw.githubusercontent.com/org/repo/main/sub/build.gradle''
        then (200, ''groupId g3'' @ [LF] @ ''artifactId a3'')
      else if u = ''https://raw.githubusercontent.com/org/repo/main/build.gradle''
        then (200, ''groupId g1'' @ [LF] @ ''artifactId a1'')
      else if u = ''https://raw.githubusercontent.com/org/repo/main/LICENSE''
        then (200, ''MIT'')
      else if u = ''https://raw.githubusercontent.com/org/lib/master/COPYING''
        then (200, ''GPL'')
      else (404, ''Not Found''))"

definition example_fromstring :: "string \<Rightarrow> element option" where
  "example_fromstring s =
     (if s = ''<project/>''
      then Some (Element (mvn ''project'') None
                   [Element (mvn ''parent'') None [Element (mvn ''groupId'') (Some ''g1'') []],
                    Element (mvn ''artifactId'') (Some ''a1'') []])
      else None)"

text \<open>A platform whose line separator is the line feed, with no file yet.\<close>

definition example_files :: files where
  "example_files = \<lparr>store = Map.empty, written = [], linesep = [LF]\<rparr>"

definition example_pom :: string where
  "example_pom = ''https://github.com/org/repo/blob/main/pom.xml''"

definition example_gradle :: string where
  "example_gradle = ''https://github.com/org/lib/blob/master/build.gradle''"

definition example_sub_gradle :: string where
  "example_sub_gradle = ''https://github.com/org/repo/blob/main/sub/build.gradle''"


section \<open>Properties\<close>

subsection \<open>Strings\<close>

lemma split_first_None_iff:
  "sep \<noteq> [] \<Longrightarrow> split_first sep s = None \<longleftrightarrow> \<not> contains sep s"
  by (induction s) (auto split: option.splits)

lemma py_split_not_Nil: "py_split sep s \<noteq> []"
  by (subst py_split.simps) (auto split: option.splits)

lemma py_split_contains:
  assumes "sep \<noteq> []" "contains sep s"
  obtains a b rest where "py_split sep s = a # b # rest"
proof -
  from assms obtain a t where st: "split_first sep s = Some (a, t)"
    using split_first_None_iff [of sep s] by (cases "split_first sep s") auto
  obtain b rest where "py_split sep t = b # rest"
    using py_split_not_Nil [of sep t] by (cases "py_split sep t") auto
  with st assms(1) have "py_split sep s = a # b # rest"
    by (subst py_split.simps) simp
  then show thesis by (rule that)
qed

lemma raw_url_loop_total:
  "[] \<notin> set brs \<Longrightarrow> \<exists>r. raw_url_loop brs u = Inr r"
proof (induction brs)
  case Nil
  then show ?case by simp
next
  case (Cons br brs)
  show ?case
  proof (cases "contains br u")
    case True
    from Cons.prems have "br \<noteq> []" by auto
    then obtain a b rest where "py_split br u = a # b # rest"
      using True by (rule py_split_contains)
    with True show ?thesis by simp
  next
    case False
    with Cons show ?thesis by simp
  qed
qed

lemma raw_url_loop_empty_iff:
  "[] \<notin> set brs \<Longrightarrow> raw_url_loop brs u = Inr [] \<longleftrightarrow> (\<forall>br \<in> set brs. \<not> contains br u)"
proof (induction brs)
  case Nil
  then show ?case by simp
next
  case (Cons br brs)
  show ?case
  proof (cases "contains br u")
    case True
    from Cons.prems have ne: "br \<noteq> []" by auto
    then obtain a b rest where "py_split br u = a # b # rest"
      using True by (rule py_split_contains)
    with True ne show ?thesis by simp
  next
    case False
    with Cons show ?thesis by simp
  qed
qed

text \<open>
  When \<open>old\<close> and \<open>new\<close> begin with the same character, replacing does not change
  whether a string without that character is a prefix.
\<close>

lemma prefix_py_replace:
  assumes "hd new = hd old" "old \<noteq> []" "new \<noteq> []" "hd old \<notin> set p"
  shows "prefix p (py_replace old new s) \<longleftrightarrow> prefix p s"
  using assms(4)
proof (induction s arbitrary: p)
  case Nil
  then show ?case by simp
next
  case (Cons c cs)
  show ?case
  proof (cases p)
    case Nil
    then show ?thesis by simp
  next
    case p: (Cons x p')
    show ?thesis
    proof (cases "prefix old (c # cs)")
      case True
      with assms(2) have c: "c = hd old" by (cases old) auto
      from assms(1,3) have "hd (new @ t) = hd old" for t by (cases new) auto
      moreover from p Cons.prems have "x \<noteq> hd old" by auto
      ultimately have "\<not> prefix p (new @ t)" for t
        using p assms(3) by (cases new) auto
      moreover have "\<not> prefix p (c # cs)" using c p \<open>x \<noteq> hd old\<close> by auto
      ultimately show ?thesis using True assms(2) by (simp add: py_replace.simps)
    next
      case False
      from p Cons.prems have "hd old \<notin> set p'" by auto
      from Cons.IH [OF this] False p show ?thesis by (simp add: py_replace.simps)
    qed
  qed
qed

text \<open>Replacing the prefix of the host neither creates nor removes a branch root.\<close>

lemma contains_GITHUB_PREFIX:
  "br \<in> set branch_roots \<Longrightarrow> contains br (GITHUB_PREFIX @ t) \<longleftrightarrow> contains br t"
  by (auto simp: branch_roots_def GITHUB_PREFIX_def)

lemma contains_RAW_FILE_PREFIX:
  "br \<in> set branch_roots \<Longrightarrow> contains br (RAW_FILE_PREFIX @ t) \<longleftrightarrow> contains br t"
  by (auto simp: branch_roots_def RAW_FILE_PREFIX_def)

lemma py_replace_at_old:
  "old \<noteq> [] \<Longrightarrow> py_replace old new (old @ t) = new @ py_replace old new t"
  by (cases old) (simp_all add: py_replace.simps)

lemma contains_py_replace:
  assumes "br \<in> set branch_roots"
  shows "contains br (py_replace GITHUB_PREFIX RAW_FILE_PREFIX s) \<longleftrightarrow> contains br s"
proof (induction s rule: length_induct)
  case (1 s)
  show ?case
  proof (cases s)
    case Nil
    then show ?thesis by simp
  next
    case (Cons c cs)
    have h: "hd GITHUB_PREFIX \<notin> set br"
      using assms by (auto simp: branch_roots_def GITHUB_PREFIX_def)
    have pre: "prefix br (py_replace GITHUB_PREFIX RAW_FILE_PREFIX s) \<longleftrightarrow> prefix br s"
      by (rule prefix_py_replace [OF _ _ _ h]) (simp_all add: GITHUB_PREFIX_def RAW_FILE_PREFIX_def)
    show ?thesis
    proof (cases "prefix GITHUB_PREFIX s")
      case True
      then obtain t where t: "s = GITHUB_PREFIX @ t" by (auto simp: prefix_def)
      then have "length t < length s" by (simp add: GITHUB_PREFIX_def)
      with 1 have IH: "contains br (py_replace GITHUB_PREFIX RAW_FILE_PREFIX t) \<longleftrightarrow> contains br t"
        by blast
      have "py_replace GITHUB_PREFIX RAW_FILE_PREFIX s
              = RAW_FILE_PREFIX @ py_replace GITHUB_PREFIX RAW_FILE_PREFIX t"
        unfolding t by (rule py_replace_at_old) (simp add: GITHUB_PREFIX_def)
      then show ?thesis
        using IH t assms by (simp add: contains_GITHUB_PREFIX contains_RAW_FILE_PREFIX)
    next
      case False
      with Cons have eq: "py_replace GITHUB_PREFIX RAW_FILE_PREFIX s
              = c # py_replace GITHUB_PREFIX RAW_FILE_PREFIX cs"
        by (simp add: py_replace.simps)
      from 1 Cons have IH: "contains br (py_replace GITHUB_PREFIX RAW_FILE_PREFIX cs) \<longleftrightarrow> contains br cs"
        by simp
      have "contains br (py_replace GITHUB_PREFIX RAW_FILE_PREFIX s)
              \<longleftrightarrow> prefix br (py_replace GITHUB_PREFIX RAW_FILE_PREFIX s)
                  \<or> contains br (py_replace GITHUB_PREFIX RAW_FILE_PREFIX cs)"
        by (simp add: eq)
      also have "\<dots> \<longleftrightarrow> prefix br s \<or> contains br cs"
        using pre IH by simp
      also have "\<dots> \<longleftrightarrow> contains br s"
        using Cons by simp
      finally show ?thesis .
    qed
  qed
qed

subsection \<open>The fetcher\<close>

lemma branch_roots_nonempty: "[] \<notin> set branch_roots"
  by (simp add: branch_roots_def)

lemma get_file_from_github_no_marker:
  assumes "\<forall>br \<in> set branch_roots. \<not> contains br url"
  shows "get_file_from_github srv url lg = (Inr None, lg)"
proof -
  have "\<forall>br \<in> set branch_roots. \<not> contains br (py_replace GITHUB_PREFIX RAW_FILE_PREFIX url)"
    using assms by (simp add: contains_py_replace)
  then have "raw_url_loop branch_roots (py_replace GITHUB_PREFIX RAW_FILE_PREFIX url) = Inr []"
    using raw_url_loop_empty_iff [OF branch_roots_nonempty] by blast
  then show ?thesis by (simp add: get_file_from_github_def)
qed

lemma get_file_from_github_marker:
  assumes "\<exists>br \<in> set branch_roots. contains br url"
  shows "\<exists>raw. raw \<noteq> [] \<and>
           raw_url_loop branch_roots (py_replace GITHUB_PREFIX RAW_FILE_PREFIX url) = Inr raw \<and>
           get_file_from_github srv url lg =
             (if fst (srv raw) = 200 then Inr (Some (snd (srv raw))) else Inr None, lg @ [raw])"
proof -
  let ?u = "py_replace GITHUB_PREFIX RAW_FILE_PREFIX url"
  obtain raw where raw: "raw_url_loop branch_roots ?u = Inr raw"
    using raw_url_loop_total [OF branch_roots_nonempty] by blast
  have "\<exists>br \<in> set branch_roots. contains br ?u"
    using assms by (simp add: contains_py_replace)
  then have "raw \<noteq> []"
    using raw raw_url_loop_empty_iff [OF branch_roots_nonempty, of ?u] by auto
  with raw show ?thesis by (auto simp: get_file_from_github_def Let_def)
qed

text \<open>
  Claim C7. A location without the branch roots \<^verbatim>\<open>'master/'\<close> and \<^verbatim>\<open>'main/'\<close> gives
  absent and the log of requests is unchanged: no request is made. A location with a
  branch root leads to exactly one request; a status other than 200 gives absent, not a
  failure, and the status 200 gives the body of the response.
\<close>

theorem get_file_from_github_absent_or_body:
  "(\<not> contains ''master/'' url \<and> \<not> contains ''main/'' url \<longrightarrow>
      get_file_from_github srv url lg = (Inr None, lg)) \<and>
   (contains ''master/'' url \<or> contains ''main/'' url \<longrightarrow>
      (\<exists>raw. raw \<noteq> [] \<and>
         get_file_from_github srv url lg =
           (if fst (srv raw) = 200 then Inr (Some (snd (srv raw))) else Inr None,
            lg @ [raw])))"
proof (intro conjI impI)
  assume "\<not> contains ''master/'' url \<and> \<not> contains ''main/'' url"
  then have "\<forall>br \<in> set branch_roots. \<not> contains br url"
    by (simp add: branch_roots_def)
  then show "get_file_from_github srv url lg = (Inr None, lg)"
    by (rule get_file_from_github_no_marker)
next
  assume "contains ''master/'' url \<or> contains ''main/'' url"
  then have "\<exists>br \<in> set branch_roots. contains br url"
    by (auto simp: branch_roots_def)
  from get_file_from_github_marker [OF this, of srv lg]
  show "\<exists>raw. raw \<noteq> [] \<and>
         get_file_from_github srv url lg =
           (if fst (srv raw) = 200 then Inr (Some (snd (srv raw))) else Inr None,
            lg @ [raw])"
    by blast
qed

theorem get_file_from_github_absent_or_body_witness:
  "get_file_from_github (\<lambda>u. (200, ''body'')) ''https://github.com/org/repo/pom.xml'' [] = (Inr None, []) \<and>
   (\<exists>raw. raw \<noteq> [] \<and>
      get_file_from_github (\<lambda>u. (404, ''Not Found'')) ''https://github.com/org/repo/blob/main/pom.xml'' []
        = (Inr None, [raw])) \<and>
   (\<exists>raw. raw \<noteq> [] \<and>
      get_file_from_github (\<lambda>u. (200, ''body'')) ''https://github.com/org/repo/blob/master/pom.xml'' []
        = (Inr (Some ''body''), [raw]))"
  using get_file_from_github_absent_or_body
          [of "''https://github.com/org/repo/pom.xml''" "\<lambda>u. (200, ''body'')" "[]"]
        get_file_from_github_absent_or_body
          [of "''https://github.com/org/repo/blob/main/pom.xml''" "\<lambda>u. (404, ''Not Found'')" "[]"]
        get_file_from_github_absent_or_body
          [of "''https://github.com/org/repo/blob/master/pom.xml''" "\<lambda>u. (200, ''body'')" "[]"]
  by simp

lemma get_file_from_github_total:
  "\<exists>r lg'. get_file_from_github srv url lg = (Inr r, lg')"
proof -
  obtain raw where "raw_url_loop branch_roots (py_replace GITHUB_PREFIX RAW_FILE_PREFIX url) = Inr raw"
    using raw_url_loop_total [OF branch_roots_nonempty] by blast
  then show ?thesis by (simp add: get_file_from_github_def Let_def)
qed

lemma get_github_root_url_cases:
  "get_github_root_url url =
     (if contains ''main/'' url then Inr (hd (py_split ''main/'' url) @ ''main/'')
      else if contains ''master/'' url then Inr (hd (py_split ''master/'' url) @ ''master/'')
      else Inl (NoBranchMarker url))"
proof -
  obtain a rest where a: "py_split ''main/'' url = a # rest"
    using py_split_not_Nil [of "''main/''" url] by (cases "py_split ''main/'' url") auto
  obtain b rest' where b: "py_split ''master/'' url = b # rest'"
    using py_split_not_Nil [of "''master/''" url] by (cases "py_split ''master/'' url") auto
  show ?thesis
    by (simp add: get_github_root_url_def branch_roots_def a b)
qed

lemma license_loop_filenames:
  "license_loop srv root license_filenames ([], None) lg =
     (case get_file_from_github srv (root @ ''LICENSE'') lg of
        (Inl e, lg1) \<Rightarrow> (Inl e, lg1)
      | (Inr (Some c), lg1) \<Rightarrow> (Inr (root @ ''LICENSE'', Some c), lg1)
      | (Inr None, lg1) \<Rightarrow>
          (case get_file_from_github srv (root @ ''COPYING'') lg1 of
             (Inl e, lg2) \<Rightarrow> (Inl e, lg2)
           | (Inr (Some c), lg2) \<Rightarrow> (Inr (root @ ''COPYING'', Some c), lg2)
           | (Inr None, lg2) \<Rightarrow> (Inr (root @ ''COPYING'', None), lg2)))"
  by (simp add: license_filenames_def split: prod.splits sum.splits option.splits)

text \<open>
  Claim C3. A reference without a branch root fails with \<open>NoBranchMarker\<close>, a diagnostic
  different from \<open>LicenseUnresolvable\<close>. Otherwise, with the hosting root of the reference:
  when \<^verbatim>\<open>LICENSE\<close> at the root resolves, its location and content are returned, whether
  or not \<^verbatim>\<open>COPYING\<close> exists; when it does not resolve and \<^verbatim>\<open>COPYING\<close> does, the
  location and content of \<^verbatim>\<open>COPYING\<close> are returned; when neither resolves, the run fails
  with \<open>LicenseUnresolvable\<close>. Both failures have exit status 1.
\<close>

theorem get_license_from_pom_order:
  "(\<not> contains ''master/'' url \<and> \<not> contains ''main/'' url \<longrightarrow>
      get_license_from_pom srv url lg = (Inl (NoBranchMarker url), lg)) \<and>
   (contains ''master/'' url \<or> contains ''main/'' url \<longrightarrow>
      (\<exists>root. get_github_root_url url = Inr root \<and>
         (\<forall>c lg1. get_file_from_github srv (root @ ''LICENSE'') lg = (Inr (Some c), lg1) \<longrightarrow>
            get_license_from_pom srv url lg = (Inr (root @ ''LICENSE'', c), lg1)) \<and>
         (\<forall>c lg1 lg2. get_file_from_github srv (root @ ''LICENSE'') lg = (Inr None, lg1) \<and>
              get_file_from_github srv (root @ ''COPYING'') lg1 = (Inr (Some c), lg2) \<longrightarrow>
            get_license_from_pom srv url lg = (Inr (root @ ''COPYING'', c), lg2)) \<and>
         (\<forall>lg1 lg2. get_file_from_github srv (root @ ''LICENSE'') lg = (Inr None, lg1) \<and>
              get_file_from_github srv (root @ ''COPYING'') lg1 = (Inr None, lg2) \<longrightarrow>
            get_license_from_pom srv url lg = (Inl (LicenseUnresolvable url), lg2)))) \<and>
   NoBranchMarker url \<noteq> LicenseUnresolvable url \<and>
   exit_status (Inl (NoBranchMarker url) :: error + string \<times> string) = 1 \<and>
   exit_status (Inl (LicenseUnresolvable url) :: error + string \<times> string) = 1"
proof (intro conjI impI)
  assume "\<not> contains ''master/'' url \<and> \<not> contains ''main/'' url"
  then show "get_license_from_pom srv url lg = (Inl (NoBranchMarker url), lg)"
    by (simp add: get_license_from_pom_def get_github_root_url_cases)
next
  assume "contains ''master/'' url \<or> contains ''main/'' url"
  then have "\<exists>root. get_github_root_url url = Inr root"
    by (cases "contains ''main/'' url") (simp_all add: get_github_root_url_cases)
  then obtain root where root: "get_github_root_url url = Inr root" ..
  show "\<exists>root. get_github_root_url url = Inr root \<and>
         (\<forall>c lg1. get_file_from_github srv (root @ ''LICENSE'') lg = (Inr (Some c), lg1) \<longrightarrow>
            get_license_from_pom srv url lg = (Inr (root @ ''LICENSE'', c), lg1)) \<and>
         (\<forall>c lg1 lg2. get_file_from_github srv (root @ ''LICENSE'') lg = (Inr None, lg1) \<and>
              get_file_from_github srv (root @ ''COPYING'') lg1 = (Inr (Some c), lg2) \<longrightarrow>
            get_license_from_pom srv url lg = (Inr (root @ ''COPYING'', c), lg2)) \<and>
         (\<forall>lg1 lg2. get_file_from_github srv (root @ ''LICENSE'') lg = (Inr None, lg1) \<and>
              get_file_from_github srv (root @ ''COPYING'') lg1 = (Inr None, lg2) \<longrightarrow>
            get_license_from_pom srv url lg = (Inl (LicenseUnresolvable url), lg2))"
    by (rule exI [of _ root])
       (simp add: root get_license_from_pom_def license_loop_filenames)
qed (simp_all add: exit_status_def)

theorem get_license_from_pom_order_witness:
  "get_license_from_pom (\<lambda>u. (200, ''MIT'')) ''https://github.com/org/repo/pom.xml'' []
     = (Inl (NoBranchMarker ''https://github.com/org/repo/pom.xml''), []) \<and>
   get_license_from_pom (\<lambda>u. (200, ''MIT'')) ''https://github.com/org/repo/blob/main/pom.xml'' []
     = (Inr (''https://github.com/org/repo/blob/main/LICENSE'', ''MIT''),
        [''https://raw.githubusercontent.com/org/repo/main/LICENSE''])"
proof -
  have root: "get_github_root_url ''https://github.com/org/repo/blob/main/pom.xml''
                = Inr ''https://github.com/org/repo/blob/main/''"
    by code_simp
  have lic: "get_file_from_github (\<lambda>u. (200, ''MIT''))
               (''https://github.com/org/repo/blob/main/'' @ ''LICENSE'') []
                = (Inr (Some ''MIT''), [''https://raw.githubusercontent.com/org/repo/main/LICENSE''])"
    by code_simp
  show ?thesis
    using get_license_from_pom_order
            [of "''https://github.com/org/repo/pom.xml''" "\<lambda>u. (200, ''MIT'')" "[]"]
          get_license_from_pom_order
            [of "''https://github.com/org/repo/blob/main/pom.xml''" "\<lambda>u. (200, ''MIT'')" "[]"]
          root lic
    by auto
qed

lemma py_replace_absent: "\<not> contains old s \<Longrightarrow> py_replace old new s = s"
  by (induction s) (simp_all add: py_replace.simps)

lemma prefix_append_shorter:
  "prefix xs (ys @ zs) \<Longrightarrow> length xs \<le> length ys \<Longrightarrow> prefix xs ys"
  by (metis prefix_append prefix_length_le prefix_order.antisym_conv prefix_def append_eq_append_conv_if
      append_take_drop_id take_is_prefix)

lemma split_first_at:
  assumes "sep \<noteq> []" "\<not> contains sep (a @ butlast sep)"
  shows "split_first sep (a @ sep @ b) = Some (a, b)"
  using assms(2)
proof (induction a)
  case Nil
  from assms(1) obtain c cs where "sep = c # cs" by (cases sep) auto
  then show ?case by simp
next
  case (Cons c a)
  from Cons.prems have np: "\<not> prefix sep (c # a @ butlast sep)"
    and nc: "\<not> contains sep (a @ butlast sep)"
    by simp_all
  have "\<not> prefix sep (c # a @ sep @ b)"
  proof
    assume p: "prefix sep (c # a @ sep @ b)"
    have "c # a @ sep @ b = (c # a @ butlast sep) @ (last sep # b)"
      using assms(1) by simp
    with p have "prefix sep ((c # a @ butlast sep) @ (last sep # b))" by simp
    moreover have "length sep \<le> length (c # a @ butlast sep)"
      using assms(1) by simp
    ultimately have "prefix sep (c # a @ butlast sep)"
      by (rule prefix_append_shorter)
    with np show False ..
  qed
  with Cons.IH [OF nc] show ?case by simp
qed

lemma py_split_once:
  assumes "sep \<noteq> []" "\<not> contains sep (a @ butlast sep)" "\<not> contains sep b"
  shows "py_split sep (a @ sep @ b) = [a, b]"
proof -
  from assms(1,3) have "split_first sep b = None"
    by (simp add: split_first_None_iff)
  then have "py_split sep b = [b]"
    using assms(1) by (subst py_split.simps) simp
  with split_first_at [OF assms(1,2), of b] assms(1) show ?thesis
    by (subst py_split.simps) simp
qed

lemma contains_prefix: "prefix sub s \<Longrightarrow> contains sub s"
  by (cases s) simp_all

lemma contains_append: "contains sub (a @ sub @ b)"
  by (induction a) (simp_all add: contains_prefix)

lemma raw_url_loop_first:
  assumes "br \<in> set brs" "[] \<notin> set brs"
    and "\<forall>b \<in> set (takeWhile (\<lambda>b. b \<noteq> br) brs). \<not> contains b u"
    and "py_split br u = [a, b]" "contains br u"
  shows "raw_url_loop brs u = Inr (take (length a - 5) a @ br @ b)"
  using assms(1,2,3)
proof (induction brs)
  case Nil
  then show ?case by simp
next
  case (Cons x brs)
  show ?case
  proof (cases "x = br")
    case True
    with assms(4,5) show ?thesis by simp
  next
    case False
    with Cons.prems have "\<not> contains x u" "br \<in> set brs" "[] \<notin> set brs"
      "\<forall>b \<in> set (takeWhile (\<lambda>b. b \<noteq> br) brs). \<not> contains b u"
      by auto
    with Cons.IH show ?thesis by simp
  qed
qed

text \<open>
  A hosted URL \<^verbatim>\<open>https://github.com/<p>blob/<marker><rest>\<close> in which the branch root
  occurs once, no other branch root is tried before it and the prefix of the host does
  not occur again, is requested as \<^verbatim>\<open>https://raw.githubusercontent.com/<p><marker><rest>\<close>.
\<close>

lemma get_file_from_github_blob:
  assumes br: "br \<in> set branch_roots"
    and first: "br = ''main/'' \<longrightarrow> \<not> contains ''master/'' (p @ ''blob/'' @ br @ rest)"
    and nohost: "\<not> contains GITHUB_PREFIX (p @ ''blob/'' @ br @ rest)"
    and before: "\<not> contains br (p @ ''blob/'' @ butlast br)"
    and after: "\<not> contains br rest"
  shows "get_file_from_github srv (GITHUB_PREFIX @ p @ ''blob/'' @ br @ rest) lg =
           (let raw = RAW_FILE_PREFIX @ p @ br @ rest in
            (if fst (srv raw) = 200 then Inr (Some (snd (srv raw))) else Inr None, lg @ [raw]))"
proof -
  let ?t = "p @ ''blob/'' @ br @ rest"
  let ?u = "RAW_FILE_PREFIX @ ?t"
  let ?a = "RAW_FILE_PREFIX @ p @ ''blob/''"
  have ne: "br \<noteq> []" using br by (auto simp: branch_roots_def)
  have rep: "py_replace GITHUB_PREFIX RAW_FILE_PREFIX (GITHUB_PREFIX @ ?t) = ?u"
    using py_replace_at_old [of GITHUB_PREFIX RAW_FILE_PREFIX ?t] nohost
    by (simp add: py_replace_absent GITHUB_PREFIX_def)
  have "\<not> contains br (RAW_FILE_PREFIX @ (p @ ''blob/'' @ butlast br))"
    using before contains_RAW_FILE_PREFIX [OF br, of "p @ ''blob/'' @ butlast br"] by blast
  then have "\<not> contains br (?a @ butlast br)" by simp
  from py_split_once [OF ne this after]
  have split: "py_split br ?u = [?a, rest]" by simp
  have c: "contains br ?u"
    using contains_append [of br ?a rest] by simp
  have "\<forall>b \<in> set (takeWhile (\<lambda>b. b \<noteq> br) branch_roots). \<not> contains b ?u"
  proof (cases "br = ''main/''")
    case True
    with first have "\<not> contains ''master/'' ?t" by simp
    then have "\<not> contains ''master/'' ?u"
      using contains_RAW_FILE_PREFIX [of "''master/''" ?t] by (simp add: branch_roots_def)
    with True show ?thesis by (simp add: branch_roots_def)
  next
    case False
    with br have "br = ''master/''" by (auto simp: branch_roots_def)
    then show ?thesis by (simp add: branch_roots_def)
  qed
  from raw_url_loop_first [OF br branch_roots_nonempty this split c]
  have loop: "raw_url_loop branch_roots ?u = Inr (RAW_FILE_PREFIX @ p @ br @ rest)"
    by simp
  have "RAW_FILE_PREFIX \<noteq> []" by (simp add: RAW_FILE_PREFIX_def)
  then show ?thesis
    unfolding get_file_from_github_def rep loop Let_def by simp
qed

text \<open>
  Claim C10. A hosted URL \<^verbatim>\<open>https://github.com/<org>/<repo>/blob/<marker><rest>\<close> is to
  be requested as \<^verbatim>\<open>https://raw.githubusercontent.com/<org>/<repo>/<marker><rest>\<close>, the
  five characters before the branch root being cut. The code does not do so when a branch
  root occurs again. Of the text after the first occurrence it keeps only the piece up to
  the next one: for \<^verbatim>\<open>https://github.com/org/repo/blob/main/src/main/pom.xml\<close> it
  requests \<^verbatim>\<open>https://raw.githubusercontent.com/org/repo/main/src/\<close>. And since
  \<^verbatim>\<open>'master/'\<close> is tried first, for
  \<^verbatim>\<open>https://github.com/org/repo/blob/main/master/pom.xml\<close> it cuts the five characters
  \<^verbatim>\<open>main/\<close> and requests \<^verbatim>\<open>https://raw.githubusercontent.com/org/repo/blob/master/pom.xml\<close>.
\<close>

theorem get_file_from_github_repeated_marker:
  "snd (get_file_from_github example_remote
          ''https://github.com/org/repo/blob/main/src/main/pom.xml'' [])
     = [''https://raw.githubusercontent.com/org/repo/main/src/''] \<and>
   snd (get_file_from_github example_remote
          ''https://github.com/org/repo/blob/main/src/main/pom.xml'' [])
     \<noteq> [''https://raw.githubusercontent.com/org/repo/main/src/main/pom.xml''] \<and>
   snd (get_file_from_github example_remote
          ''https://github.com/org/repo/blob/main/master/pom.xml'' [])
     = [''https://raw.githubusercontent.com/org/repo/blob/master/pom.xml''] \<and>
   snd (get_file_from_github example_remote
          ''https://github.com/org/repo/blob/main/master/pom.xml'' [])
     \<noteq> [''https://raw.githubusercontent.com/org/repo/main/master/pom.xml'']"
  by code_simp

subsection \<open>The descriptor parsers\<close>

lemma find_child_without_group:
  "name \<noteq> ''groupId'' \<Longrightarrow>
     find_child (Element t x (filter (\<lambda>c. tag c \<noteq> mvn ''groupId'') cs)) name
       = find_child (Element t x cs) name"
  by (induction cs) (auto simp: find_child_def mvn_def)

text \<open>
  Claim C6. The coordinate of a pom document fails with \<open>MalformedDescriptor\<close> when the
  \<^verbatim>\<open>parent\<close> element, its \<^verbatim>\<open>groupId\<close> or the top-level \<^verbatim>\<open>artifactId\<close> is
  missing; otherwise the group is the text of the \<^verbatim>\<open>groupId\<close> inside \<^verbatim>\<open>parent\<close> and
  the artifact the text of the top-level \<^verbatim>\<open>artifactId\<close>. Top-level \<^verbatim>\<open>groupId\<close>
  elements have no influence: removing them changes nothing. The function that fetches a
  pom file returns this coordinate of the parsed content.
\<close>

theorem pom_coordinate_parent_only:
  "(find_child root ''parent'' = None \<longrightarrow> pom_coordinate root = Inl MalformedDescriptor) \<and>
   (\<forall>parent. find_child root ''parent'' = Some parent \<and> find_child parent ''groupId'' = None
       \<longrightarrow> pom_coordinate root = Inl MalformedDescriptor) \<and>
   (find_child root ''artifactId'' = None \<longrightarrow> pom_coordinate root = Inl MalformedDescriptor) \<and>
   (\<forall>parent g a. find_child root ''parent'' = Some parent \<and> find_child parent ''groupId'' = Some g
        \<and> find_child root ''artifactId'' = Some a
       \<longrightarrow> pom_coordinate root = Inr (fmt_s (elem_text g) @ '':'' @ fmt_s (elem_text a))) \<and>
   pom_coordinate (Element t x (filter (\<lambda>c. tag c \<noteq> mvn ''groupId'') cs))
     = pom_coordinate (Element t x cs) \<and>
   (\<forall>content lg'. get_file_from_github srv url lg = (Inr (Some content), lg')
        \<and> fromstring content = Some root
       \<longrightarrow> get_pom_artifact_name srv fromstring url lg = (pom_coordinate root, lg'))"
proof -
  have "pom_coordinate (Element t x (filter (\<lambda>c. tag c \<noteq> mvn ''groupId'') cs))
     = pom_coordinate (Element t x cs)"
  proof -
    have p: "find_child (Element t x (filter (\<lambda>c. tag c \<noteq> mvn ''groupId'') cs)) ''parent''
               = find_child (Element t x cs) ''parent''"
      by (rule find_child_without_group) simp
    have a: "find_child (Element t x (filter (\<lambda>c. tag c \<noteq> mvn ''groupId'') cs)) ''artifactId''
               = find_child (Element t x cs) ''artifactId''"
      by (rule find_child_without_group) simp
    show ?thesis unfolding pom_coordinate_def p a ..
  qed
  moreover have "\<forall>content lg'. get_file_from_github srv url lg = (Inr (Some content), lg')
        \<and> fromstring content = Some root
       \<longrightarrow> get_pom_artifact_name srv fromstring url lg = (pom_coordinate root, lg')"
    by (simp add: get_pom_artifact_name_def)
  ultimately show ?thesis
    by (auto simp: pom_coordinate_def split: option.splits)
qed

theorem pom_coordinate_parent_only_witness:
  "pom_coordinate (Element (mvn ''project'') None
       [Element (mvn ''groupId'') (Some ''top'') [],
        Element (mvn ''artifactId'') (Some ''a1'') []]) = Inl MalformedDescriptor \<and>
   pom_coordinate (Element (mvn ''project'') None
       [Element (mvn ''parent'') None [Element (mvn ''groupId'') (Some ''g1'') []],
        Element (mvn ''groupId'') (Some ''top'') [],
        Element (mvn ''artifactId'') (Some ''a1'') []]) = Inr ''g1:a1''"
  using pom_coordinate_parent_only
          [where root = "Element (mvn ''project'') None
                           [Element (mvn ''groupId'') (Some ''top'') [],
                            Element (mvn ''artifactId'') (Some ''a1'') []]"]
        pom_coordinate_parent_only
          [where root = "Element (mvn ''project'') None
                           [Element (mvn ''parent'') None
                              [Element (mvn ''groupId'') (Some ''g1'') []],
                            Element (mvn ''groupId'') (Some ''top'') [],
                            Element (mvn ''artifactId'') (Some ''a1'') []]"]
  by (simp add: find_child_def mvn_def fmt_s_def)

lemma contains_set: "contains sub s \<Longrightarrow> set sub \<subseteq> set s"
proof (induction s)
  case Nil
  then show ?case by simp
next
  case (Cons c cs)
  from Cons.prems have "prefix sub (c # cs) \<or> contains sub cs" by simp
  then show ?case
  proof
    assume "prefix sub (c # cs)"
    then show ?thesis by (rule set_mono_prefix)
  next
    assume "contains sub cs"
    with Cons.IH show ?thesis by auto
  qed
qed

lemma split_ws_from_Nil_iff:
  "split_ws_from cur s = [] \<longleftrightarrow> cur = [] \<and> (\<forall>c \<in> set s. is_space c)"
  by (induction s arbitrary: cur) auto

lemma get_grad_rval_token:
  assumes "contains token line" "c \<in> set token" "\<not> is_space c"
  shows "get_grad_rval line = Inr (strip_quote (last (split_ws line)))"
proof -
  from assms(1,2) have "c \<in> set line" using contains_set by blast
  with assms(3) have "split_ws line \<noteq> []"
    by (auto simp: split_ws_def split_ws_from_Nil_iff)
  then show ?thesis
    by (cases "split_ws line") (simp_all add: get_grad_rval_def)
qed

lemma spec_last_value_Cons:
  "spec_last_value token (l # ls) =
     (if filter (contains token) ls \<noteq> [] then spec_last_value token ls
      else if contains token l then strip_quote (last (split_ws l)) else [])"
  by (auto simp: spec_last_value_def split: list.splits)

lemma gradle_loop_last:
  "gradle_loop lines g a =
     Inr (if filter (contains ''groupId'') lines = [] then g
          else spec_last_value ''groupId'' lines,
          if filter (contains ''artifactId'') lines = [] then a
          else spec_last_value ''artifactId'' lines)"
proof (induction lines arbitrary: g a)
  case Nil
  then show ?case by simp
next
  case (Cons l ls)
  have g: "get_grad_rval l = Inr (strip_quote (last (split_ws l)))"
    if "contains ''groupId'' l"
    using get_grad_rval_token [OF that, of "CHR ''g''"] by (simp add: is_space_def)
  have a: "get_grad_rval l = Inr (strip_quote (last (split_ws l)))"
    if "contains ''artifactId'' l"
    using get_grad_rval_token [OF that, of "CHR ''a''"] by (simp add: is_space_def)
  show ?case
    by (simp add: Cons.IH g a spec_last_value_Cons del: contains.simps)
qed

text \<open>
  Claim C5. The coordinate of a gradle content never fails: its group is the value the
  specification gives for the token \<^verbatim>\<open>groupId\<close> (the last token, without single quotes,
  of the last line containing \<^verbatim>\<open>groupId\<close>, or the empty string when there is no such
  line), and its artifact the same for \<^verbatim>\<open>artifactId\<close>. The function that fetches a
  gradle file returns this coordinate of the content.
\<close>

theorem gradle_coordinate_last_wins:
  "gradle_coordinate content =
     Inr (spec_last_value ''groupId'' (splitlines content) @ '':'' @
          spec_last_value ''artifactId'' (splitlines content)) \<and>
   (\<forall>content' lg'. get_file_from_github srv url lg = (Inr (Some content'), lg') \<longrightarrow>
      get_gradle_artifact_name srv url lg = (gradle_coordinate content', lg'))"
proof -
  have "spec_last_value token lines = []" if "filter (contains token) lines = []" for token lines
    using that by (simp add: spec_last_value_def)
  then show ?thesis
    by (auto simp: gradle_coordinate_def gradle_loop_last get_gradle_artifact_name_def)
qed

theorem gradle_coordinate_last_wins_witness:
  "gradle_coordinate (''groupId = x'' @ [LF] @ ''artifactId y'' @ [LF] @ ''groupId z'')
     = Inr ''z:y'' \<and>
   gradle_coordinate ''plugins {}'' = Inr '':'' \<and>
   get_gradle_artifact_name (\<lambda>u. (200, ''groupId g''))
       ''https://github.com/org/repo/blob/main/build.gradle'' []
     = (gradle_coordinate ''groupId g'',
        [''https://raw.githubusercontent.com/org/repo/main/build.gradle''])"
proof -
  let ?c = "''groupId = x'' @ [LF] @ ''artifactId y'' @ [LF] @ ''groupId z''"
  have g: "spec_last_value ''groupId'' (splitlines ?c) = ''z''"
    by code_simp
  have a: "spec_last_value ''artifactId'' (splitlines ?c) = ''y''"
    by code_simp
  have g0: "spec_last_value ''groupId'' (splitlines ''plugins {}'') = []"
    by code_simp
  have a0: "spec_last_value ''artifactId'' (splitlines ''plugins {}'') = []"
    by code_simp
  have f: "get_file_from_github (\<lambda>u. (200, ''groupId g''))
             ''https://github.com/org/repo/blob/main/build.gradle'' []
           = (Inr (Some ''groupId g''),
              [''https://raw.githubusercontent.com/org/repo/main/build.gradle''])"
    by code_simp
  show ?thesis
    using gradle_coordinate_last_wins [of ?c "\<lambda>u. (200, ''groupId g'')"
            "''https://github.com/org/repo/blob/main/build.gradle''" "[]"]
          gradle_coordinate_last_wins [of "''plugins {}''" "\<lambda>u. (200, ''groupId g'')"
            "''https://github.com/org/repo/blob/main/build.gradle''" "[]"]
          g a g0 a0 f
    by simp
qed

subsection \<open>The main program\<close>

text \<open>
  Claim C4. When the two lists differ in length, the check of the lists and the whole
  run fail with \<open>LengthMismatch\<close> and exit status 1, whatever the lists, the remote host
  and the parser are; the log of requests and the files are as before, so nothing was
  fetched, parsed or written.
\<close>

theorem length_mismatch_fails_first:
  "length maven_artifacts \<noteq> length pom_gradle_filelist \<Longrightarrow>
     reconcile srv fromstring maven_artifacts pom_gradle_filelist lg = (Inl LengthMismatch, lg) \<and>
     main srv fromstring maven_artifacts pom_gradle_filelist notices update lg fs
       = (Inl LengthMismatch, lg, fs) \<and>
     exit_status (fst (main srv fromstring maven_artifacts pom_gradle_filelist notices update lg fs)) = 1"
  by (simp add: reconcile_def main_def exit_status_def)

theorem length_mismatch_fails_first_witness:
  "length [''g1:a1:1.0'', ''g2:a2:1.0''] \<noteq> length [''https://github.com/org/repo/blob/main/pom.xml''] \<and>
   main (\<lambda>u. (200, '''')) (\<lambda>s. None) [''g1:a1:1.0'', ''g2:a2:1.0'']
     [''https://github.com/org/repo/blob/main/pom.xml''] ''THIRD_PARTY_NOTICES'' True []
     example_files
     = (Inl LengthMismatch, [], example_files)"
  using length_mismatch_fails_first
          [of "[''g1:a1:1.0'', ''g2:a2:1.0'']" "[''https://github.com/org/repo/blob/main/pom.xml'']"
              "\<lambda>u. (200, '''')" "\<lambda>s. None" "[]" "''THIRD_PARTY_NOTICES''" True example_files]
  by simp






subsection \<open>Reconciling the two lists\<close>

lemma get_file_from_github_log:
  "fst (get_file_from_github srv url lg) = fst (get_file_from_github srv url [])"
  by (simp add: get_file_from_github_def Let_def split: sum.splits)

lemma derive_one_log:
  "fst (derive_one srv fromstring url lg) = coordinate_of srv fromstring url"
proof -
  have "fst (get_pom_artifact_name srv fromstring url lg)
          = fst (get_pom_artifact_name srv fromstring url [])"
    using get_file_from_github_log [of srv url lg]
    by (auto simp: get_pom_artifact_name_def split: prod.splits sum.splits option.splits)
  moreover have "fst (get_gradle_artifact_name srv url lg)
          = fst (get_gradle_artifact_name srv url [])"
    using get_file_from_github_log [of srv url lg]
    by (auto simp: get_gradle_artifact_name_def split: prod.splits sum.splits option.splits)
  ultimately show ?thesis
    by (simp add: derive_one_def coordinate_of_def)
qed

lemma derive_loop_Cons:
  "derive_loop srv fromstring (url # urls) (acc, idx) lg =
     (case derive_one srv fromstring url lg of
        (Inl e, lg') \<Rightarrow> (Inl e, lg')
      | (Inr tmp, lg') \<Rightarrow> derive_loop srv fromstring urls (acc @ [tmp], idx(tmp \<mapsto> url)) lg')"
  by (simp add: derive_one_def)

lemma derive_loop_Inr:
  "derive_loop srv fromstring urls (acc, idx) lg = (Inr (acc', idx'), lg') \<Longrightarrow>
     \<exists>ds. acc' = acc @ ds \<and> length ds = length urls \<and>
          (\<forall>i < length urls. coordinate_of srv fromstring (urls ! i) = Inr (ds ! i)) \<and>
          idx' = index_of (zip ds urls) idx"
proof (induction urls arbitrary: acc idx lg)
  case Nil
  then show ?case by (simp add: index_of_def)
next
  case (Cons url urls)
  from Cons.prems obtain tmp lg1 where one: "derive_one srv fromstring url lg = (Inr tmp, lg1)"
    and rest: "derive_loop srv fromstring urls (acc @ [tmp], idx(tmp \<mapsto> url)) lg1 = (Inr (acc', idx'), lg')"
    by (auto simp: derive_loop_Cons simp del: derive_loop.simps split: prod.splits sum.splits)
  from Cons.IH [OF rest] obtain ds where ds: "acc' = (acc @ [tmp]) @ ds" "length ds = length urls"
    "\<forall>i < length urls. coordinate_of srv fromstring (urls ! i) = Inr (ds ! i)"
    "idx' = index_of (zip ds urls) (idx(tmp \<mapsto> url))"
    by blast
  from one have c: "coordinate_of srv fromstring url = Inr tmp"
    using derive_one_log [of srv fromstring url lg] by simp
  have "\<forall>i < length (url # urls). coordinate_of srv fromstring ((url # urls) ! i) = Inr ((tmp # ds) ! i)"
    using ds(3) c by (auto simp: nth_Cons split: nat.splits)
  with ds show ?case
    by (intro exI [of _ "tmp # ds"]) (simp add: index_of_def)
qed

lemma derive_loop_succeeds:
  "\<forall>u \<in> set urls. \<exists>c. coordinate_of srv fromstring u = Inr c \<Longrightarrow>
     \<exists>r lg'. derive_loop srv fromstring urls (acc, idx) lg = (Inr r, lg')"
proof (induction urls arbitrary: acc idx lg)
  case Nil
  then show ?case by simp
next
  case (Cons url urls)
  from Cons.prems obtain c where "coordinate_of srv fromstring url = Inr c" by auto
  then obtain lg1 where one: "derive_one srv fromstring url lg = (Inr c, lg1)"
    using derive_one_log [of srv fromstring url lg]
    by (cases "derive_one srv fromstring url lg") auto
  from Cons.prems have "\<forall>u \<in> set urls. \<exists>c. coordinate_of srv fromstring u = Inr c" by simp
  from Cons.IH [OF this, of "acc @ [c]" "idx(c \<mapsto> url)" lg1]
  obtain r lg' where
    "derive_loop srv fromstring urls (acc @ [c], idx(c \<mapsto> url)) lg1 = (Inr r, lg')"
    by blast
  with one have "derive_loop srv fromstring (url # urls) (acc, idx) lg = (Inr r, lg')"
    by (simp only: derive_loop_Cons prod.case sum.case)
  then show ?case by blast
qed

lemma truncate_loop_eq:
  "truncate_loop names acc =
     (if \<forall>a \<in> set names. well_formed a then Inr (acc @ map truncated names) else Inl IndexError)"
proof (induction names arbitrary: acc)
  case Nil
  then show ?case by simp
next
  case (Cons a names)
  show ?case
  proof (cases "py_split '':'' a")
    case Nil
    then show ?thesis by (simp add: well_formed_def)
  next
    case l1: (Cons x xs)
    show ?thesis
    proof (cases xs)
      case Nil
      with l1 show ?thesis by (simp add: well_formed_def)
    next
      case (Cons y ys)
      with l1 Cons.IH show ?thesis by (simp add: well_formed_def truncated_def)
    qed
  qed
qed

lemma index_of_dom: "dom (index_of ps idx) = dom idx \<union> fst ` set ps"
  unfolding index_of_def by (induction ps arbitrary: idx) auto

lemma index_of_notin: "c \<notin> fst ` set ps \<Longrightarrow> index_of ps idx c = idx c"
  unfolding index_of_def by (induction ps arbitrary: idx) auto

lemma index_of_distinct:
  "distinct (map fst ps) \<Longrightarrow> (c, u) \<in> set ps \<Longrightarrow> index_of ps idx c = Some u"
proof (induction ps arbitrary: idx)
  case Nil
  then show ?case by simp
next
  case (Cons p ps)
  obtain c' u' where p: "p = (c', u')" by (cases p)
  have step: "index_of (p # ps) idx = index_of ps (idx(c' \<mapsto> u'))"
    by (simp add: index_of_def p)
  show ?case
  proof (cases "(c, u) \<in> set ps")
    case True
    moreover from Cons.prems have "distinct (map fst ps)" by simp
    ultimately have "index_of ps (idx(c' \<mapsto> u')) c = Some u"
      by (intro Cons.IH)
    then show ?thesis by (simp only: step)
  next
    case False
    with Cons.prems p have eq: "c = c'" "u = u'" by auto
    with Cons.prems p have "c \<notin> fst ` set ps" by auto
    then show ?thesis using step eq by (simp add: index_of_notin)
  qed
qed

lemma reconcile_after_derive:
  assumes "length decl = length urls"
    and "derive_loop srv fromstring urls ([], Map.empty) lg = (Inr (ds, idx), lg')"
  shows "reconcile srv fromstring decl urls lg =
           (if \<forall>a \<in> set decl. well_formed a
            then (if ds \<noteq> map truncated decl
                  then Inl (CoordinateMismatch ds (map truncated decl))
                  else Inr (ds, idx))
            else Inl IndexError, lg')"
  using assms by (simp add: reconcile_def truncate_loop_eq)

lemma main_after_reconcile_fails:
  "reconcile srv fromstring decl urls lg = (Inl e, lg') \<Longrightarrow>
     main srv fromstring decl urls notices update lg fs = (Inl e, lg', fs)"
  by (simp add: main_def)

lemma example_coordinates:
  "coordinate_of example_remote example_fromstring example_pom = Inr ''g1:a1''"
  "coordinate_of example_remote example_fromstring example_gradle = Inr ''g2:a2''"
  "coordinate_of example_remote example_fromstring example_sub_gradle = Inr ''g3:a3''"
  by code_simp+

lemma example_truncated:
  "truncated ''g1:a1:1.0'' = ''g1:a1''" "truncated ''g2:a2:2.0'' = ''g2:a2''"
  "truncated ''g3:a3'' = ''g3:a3''"
  "well_formed ''g1:a1:1.0''" "well_formed ''g2:a2:2.0''" "well_formed ''g3:a3''"
  by code_simp+

text \<open>
  Claim C1. For two lists of equal length whose descriptors all yield a coordinate, the
  derived list is aligned by index with the descriptor list. When every declared entry
  has two segments and the derived list differs from the list of truncated declared
  entries, at any position and so also after reordering one of the lists, the check and the
  whole run fail with \<open>CoordinateMismatch\<close> and exit status 1, and the files stay as they
  were. The check succeeds only if the two lists are equal element by element. A declared
  entry without a second segment cannot be truncated: the run then stops at line 189 with
  an index out of range, again with exit status 1.
\<close>

theorem reconcile_positional:
  assumes "length decl = length urls"
    and "derive_loop srv fromstring urls ([], Map.empty) lg = (Inr (ds, idx), lg')"
  shows "length ds = length urls \<and>
         (\<forall>i < length urls. coordinate_of srv fromstring (urls ! i) = Inr (ds ! i)) \<and>
         ((\<forall>a \<in> set decl. well_formed a) \<and> ds \<noteq> map truncated decl \<longrightarrow>
            reconcile srv fromstring decl urls lg
              = (Inl (CoordinateMismatch ds (map truncated decl)), lg') \<and>
            main srv fromstring decl urls notices update lg fs
              = (Inl (CoordinateMismatch ds (map truncated decl)), lg', fs) \<and>
            exit_status (fst (main srv fromstring decl urls notices update lg fs)) = 1) \<and>
         ((\<exists>r. fst (reconcile srv fromstring decl urls lg) = Inr r) \<longrightarrow>
            (\<forall>a \<in> set decl. well_formed a) \<and> ds = map truncated decl) \<and>
         (\<not> (\<forall>a \<in> set decl. well_formed a) \<longrightarrow>
            reconcile srv fromstring decl urls lg = (Inl IndexError, lg') \<and>
            exit_status (fst (main srv fromstring decl urls notices update lg fs)) = 1)"
proof -
  from derive_loop_Inr [OF assms(2)]
  have aligned: "length ds = length urls \<and>
         (\<forall>i < length urls. coordinate_of srv fromstring (urls ! i) = Inr (ds ! i))"
    by auto
  note rec = reconcile_after_derive [OF assms]
  have mismatch: "reconcile srv fromstring decl urls lg
              = (Inl (CoordinateMismatch ds (map truncated decl)), lg') \<and>
            main srv fromstring decl urls notices update lg fs
              = (Inl (CoordinateMismatch ds (map truncated decl)), lg', fs) \<and>
            exit_status (fst (main srv fromstring decl urls notices update lg fs)) = 1"
    if "(\<forall>a \<in> set decl. well_formed a) \<and> ds \<noteq> map truncated decl"
  proof -
    from that rec have r: "reconcile srv fromstring decl urls lg
              = (Inl (CoordinateMismatch ds (map truncated decl)), lg')"
      by simp
    from main_after_reconcile_fails [OF r]
    have "main srv fromstring decl urls notices update lg fs
              = (Inl (CoordinateMismatch ds (map truncated decl)), lg', fs)" .
    with r show ?thesis by (simp add: exit_status_def)
  qed
  have success: "(\<forall>a \<in> set decl. well_formed a) \<and> ds = map truncated decl"
    if "\<exists>r. fst (reconcile srv fromstring decl urls lg) = Inr r"
    using that unfolding rec by (auto split: if_splits)
  have ill: "reconcile srv fromstring decl urls lg = (Inl IndexError, lg') \<and>
            exit_status (fst (main srv fromstring decl urls notices update lg fs)) = 1"
    if "\<not> (\<forall>a \<in> set decl. well_formed a)"
  proof -
    from that rec have r: "reconcile srv fromstring decl urls lg = (Inl IndexError, lg')"
      by simp
    from main_after_reconcile_fails [OF r] r show ?thesis
      by (simp add: exit_status_def)
  qed
  from aligned mismatch success ill show ?thesis by blast
qed

theorem reconcile_positional_witness:
  "main example_remote example_fromstring [''g1:a1:1.0'', ''g2:a2:2.0'']
     [example_gradle, example_pom] ''THIRD_PARTY_NOTICES'' True [] example_files
   = (Inl (CoordinateMismatch [''g2:a2'', ''g1:a1''] [''g1:a1'', ''g2:a2'']),
      [''https://raw.githubusercontent.com/org/lib/master/build.gradle'',
       ''https://raw.githubusercontent.com/org/repo/main/pom.xml''],
      example_files)"
proof -
  let ?decl = "[''g1:a1:1.0'', ''g2:a2:2.0'']"
  let ?urls = "[example_gradle, example_pom]"
  let ?lg = "[''https://raw.githubusercontent.com/org/lib/master/build.gradle'',
       ''https://raw.githubusercontent.com/org/repo/main/pom.xml'']"
  have "case derive_loop example_remote example_fromstring ?urls ([], Map.empty) [] of
          (Inr (ds, idx), lg') \<Rightarrow> ds = [''g2:a2'', ''g1:a1''] \<and> lg' = ?lg
        | (Inl e, lg') \<Rightarrow> False"
    by code_simp
  then obtain idx where loop:
    "derive_loop example_remote example_fromstring ?urls ([], Map.empty) []
       = (Inr ([''g2:a2'', ''g1:a1''], idx), ?lg)"
    by (auto split: prod.splits sum.splits)
  have len: "length ?decl = length ?urls" by simp
  from reconcile_positional [OF len loop, of "''THIRD_PARTY_NOTICES''" True example_files]
  show ?thesis by (simp add: example_truncated)
qed

text \<open>
  Claim C8. For lists of equal length, with declared entries of at least two segments and
  pairwise distinct coordinates, where every descriptor yields the truncated declared
  entry at its position, the check succeeds: it returns the coordinates and an index whose
  keys are exactly these coordinates, as many as there are list elements, and which maps
  every coordinate to the descriptor at its position.
\<close>

theorem reconcile_succeeds:
  assumes "length decl = length urls"
    and "\<forall>a \<in> set decl. well_formed a"
    and "\<forall>i < length urls. coordinate_of srv fromstring (urls ! i) = Inr (truncated (decl ! i))"
    and "distinct (map truncated decl)"
  shows "\<exists>idx lg'. reconcile srv fromstring decl urls lg = (Inr (map truncated decl, idx), lg') \<and>
           dom idx = set (map truncated decl) \<and>
           card (dom idx) = length decl \<and>
           (\<forall>i < length decl. idx (truncated (decl ! i)) = Some (urls ! i))"
proof -
  have "\<forall>u \<in> set urls. \<exists>c. coordinate_of srv fromstring u = Inr c"
    using assms(3) by (auto simp: in_set_conv_nth)
  from derive_loop_succeeds [OF this, of "[]" Map.empty lg]
  obtain ds idx lg' where loop: "derive_loop srv fromstring urls ([], Map.empty) lg = (Inr (ds, idx), lg')"
    by (metis surj_pair)
  from derive_loop_Inr [OF loop]
  have len: "length ds = length urls"
    and co: "\<forall>i < length urls. coordinate_of srv fromstring (urls ! i) = Inr (ds ! i)"
    and idx: "idx = index_of (zip ds urls) Map.empty"
    by auto
  have ds: "ds = map truncated decl"
  proof (rule nth_equalityI)
    show "length ds = length (map truncated decl)" using len assms(1) by simp
  next
    fix i assume "i < length ds"
    with len co assms(1,3) show "ds ! i = map truncated decl ! i" by auto
  qed
  have rec: "reconcile srv fromstring decl urls lg = (Inr (map truncated decl, idx), lg')"
    using reconcile_after_derive [OF assms(1) loop] assms(2) ds by simp
  have fst_zip: "fst ` set (zip ds urls) = set ds"
    using len by (metis map_fst_zip set_map)
  have "dom idx = set ds"
    unfolding idx index_of_dom fst_zip by simp
  then have dom: "dom idx = set (map truncated decl)"
    by (simp only: ds)
  have card: "card (dom idx) = length decl"
    unfolding dom using assms(4) distinct_card by fastforce
  have look: "idx (truncated (decl ! i)) = Some (urls ! i)" if "i < length decl" for i
  proof -
    from that len assms(1) have "(ds ! i, urls ! i) \<in> set (zip ds urls)"
      by (auto simp: set_zip)
    moreover have "distinct (map fst (zip ds urls))"
      using len assms(4) ds by (simp add: map_fst_zip)
    ultimately have "idx (ds ! i) = Some (urls ! i)"
      unfolding idx by (rule index_of_distinct [rotated])
    with that ds show ?thesis by simp
  qed
  from rec dom card look show ?thesis by blast
qed

theorem reconcile_succeeds_witness:
  "\<exists>idx lg'. reconcile example_remote example_fromstring
                [''g1:a1:1.0'', ''g2:a2:2.0'', ''g3:a3'']
                [example_pom, example_gradle, example_sub_gradle] []
              = (Inr ([''g1:a1'', ''g2:a2'', ''g3:a3''], idx), lg') \<and>
            dom idx = {''g1:a1'', ''g2:a2'', ''g3:a3''} \<and> card (dom idx) = 3 \<and>
            idx ''g1:a1'' = Some example_pom \<and> idx ''g2:a2'' = Some example_gradle \<and>
            idx ''g3:a3'' = Some example_sub_gradle"
proof -
  let ?decl = "[''g1:a1:1.0'', ''g2:a2:2.0'', ''g3:a3'']"
  let ?urls = "[example_pom, example_gradle, example_sub_gradle]"
  have 1: "length ?decl = length ?urls" by simp
  have 2: "\<forall>a \<in> set ?decl. well_formed a" by (simp add: example_truncated)
  have 3: "\<forall>i < length ?urls. coordinate_of example_remote example_fromstring (?urls ! i)
              = Inr (truncated (?decl ! i))"
    by (auto simp: less_Suc_eq example_coordinates example_truncated)
  have 4: "distinct (map truncated ?decl)" by (simp add: example_truncated)
  from reconcile_succeeds [OF 1 2 3 4, of "[]"]
  obtain idx lg' where r: "reconcile example_remote example_fromstring ?decl ?urls []
        = (Inr (map truncated ?decl, idx), lg')"
    "dom idx = set (map truncated ?decl)" "card (dom idx) = length ?decl"
    "\<forall>i < length ?decl. idx (truncated (?decl ! i)) = Some (?urls ! i)"
    by blast
  have "idx (truncated ''g1:a1:1.0'') = Some example_pom"
    using r(4) [rule_format, of 0] by simp
  moreover have "idx (truncated ''g2:a2:2.0'') = Some example_gradle"
    using r(4) [rule_format, of 1] by simp
  moreover have "idx (truncated ''g3:a3'') = Some example_sub_gradle"
    using r(4) [rule_format, of 2] by simp
  ultimately show ?thesis using r(1-3) by (simp add: example_truncated)
qed

subsection \<open>The notices document\<close>



















subsection \<open>A whole run\<close>

text \<open>
  The scenario of the specification: one declared package, its pom file and a
  \<^verbatim>\<open>LICENSE\<close> file with the content \<^verbatim>\<open>MIT\<close>. In update mode the run succeeds after
  two requests and writes the expected document.
\<close>

lemma main_example_scenario:
  "(case main example_remote example_fromstring [''g1:a1:1.0''] [example_pom]
           ''THIRD_PARTY_NOTICES'' True [] example_files of
      (r, lg, fs) \<Rightarrow>
        r = Inr () \<and>
        lg = [''https://raw.githubusercontent.com/org/repo/main/pom.xml'',
              ''https://raw.githubusercontent.com/org/repo/main/LICENSE''] \<and>
        store fs ''THIRD_PARTY_NOTICES''
          = Some (''License for package(s): ['' @ [CHR 0x27] @ ''g1:a1'' @ [CHR 0x27] @ '']''
                  @ [LF, LF] @ ''MIT'' @ SPACER) \<and>
        map fst (written fs) = [''THIRD_PARTY_NOTICES''])"
  by code_simp

end
